theory Spec2Isabelle
  imports Main
begin

section \<open>language.cc: qualified names\<close>

text \<open>
  \<^verbatim>\<open>MakeQualifiedNameWithSeparator(parent_name, separator, name)\<close>: the name alone when
  the parent is empty, otherwise parent, separator and name concatenated.
\<close>

definition MakeQualifiedNameWithSeparator :: "string \<Rightarrow> string \<Rightarrow> string \<Rightarrow> string" where
  "MakeQualifiedNameWithSeparator parent_name separator name =
     (if parent_name = [] then name else parent_name @ separator @ name)"

text \<open>
  The five singletons of \<^verbatim>\<open>Language\<close>; a virtual call on one of them is a function of
  the constructor.
\<close>

datatype Language = CPlusPlus | Java | Swift | Rust | Assembler

fun MakeQualifiedName :: "Language \<Rightarrow> string \<Rightarrow> string \<Rightarrow> string" where
  "MakeQualifiedName CPlusPlus parent_name name =
     MakeQualifiedNameWithSeparator parent_name ''::'' name"
| "MakeQualifiedName Java parent_name name =
     MakeQualifiedNameWithSeparator parent_name ''.'' name"
| "MakeQualifiedName Swift parent_name name =
     MakeQualifiedNameWithSeparator parent_name ''.'' name"
| "MakeQualifiedName Rust parent_name name =
     MakeQualifiedNameWithSeparator parent_name ''.'' name"
| "MakeQualifiedName Assembler parent_name name = name"

section \<open>language.cc: demangling\<close>

text \<open>
  \<^verbatim>\<open>Language::DemangleResult\<close>. The specification calls the three values Success,
  Failure and Unsupported.
\<close>

datatype DemangleResult = kDemangleSuccess | kDemangleFailure | kDontDemangle

text \<open>
  What the build and the platform provide. The two preprocessor symbols select the
  branches of the \<^verbatim>\<open>#if\<close>s. \<^verbatim>\<open>abi::__cxa_demangle(name, NULL, NULL, &status)\<close> is a
  parameter giving the status it stores and the pointer it returns (\<open>None\<close> is the null
  pointer, \<open>Some s\<close> a C string \<open>s\<close>); \<^verbatim>\<open>rust_demangle(name)\<close> is a parameter giving the
  pointer it returns. Both receive \<^verbatim>\<open>mangled.c_str()\<close>, the bytes before the first NUL.
\<close>

record platform =
  ANDROID :: bool
  HAVE_RUST_DEMANGLE :: bool
  cxa_demangle :: "string \<Rightarrow> int \<times> string option"
  rust_demangle :: "string \<Rightarrow> string option"

definition c_str :: "string \<Rightarrow> string" where
  "c_str s = takeWhile (\<lambda>c. c \<noteq> CHR 0x00) s"

text \<open>
  A demangle operation reads the mangled name and the string \<^verbatim>\<open>*demangled\<close> as the
  caller left it, and returns the result together with the new contents of
  \<^verbatim>\<open>*demangled\<close>. Building a \<^verbatim>\<open>std::string\<close> from a null pointer is undefined in C++;
  the model makes that a fault.
\<close>

datatype fault = NullPointerRead

definition CPPLanguage_DemangleName ::
    "platform \<Rightarrow> string \<Rightarrow> string \<Rightarrow> fault + (DemangleResult \<times> string)" where
  "CPPLanguage_DemangleName P mangled demangled =
     (if ANDROID P then Inr (kDontDemangle, [])
      else
        (case cxa_demangle P (c_str mangled) of (status, demangled_c) \<Rightarrow>
           if status = 0 then
             (case demangled_c of
                None \<Rightarrow> Inl NullPointerRead
              | Some s \<Rightarrow> Inr (kDemangleSuccess, s))
           else Inr (kDemangleFailure, [])))"

definition SwiftLanguage_DemangleName :: "string \<Rightarrow> string \<Rightarrow> DemangleResult \<times> string" where
  "SwiftLanguage_DemangleName mangled demangled = (kDemangleSuccess, mangled)"

subsection \<open>The legacy Rust escapes\<close>

text \<open>The \<^verbatim>\<open>unordered_map\<close> of \<^verbatim>\<open>rust_replace_dollar\<close>, in the order of its initialiser.\<close>

definition rust_dollar_map :: "(string \<times> char) list" where
  "rust_dollar_map =
     [(''C'', CHR '',''),
      (''SP'', CHR ''@''),
      (''BP'', CHR ''*''),
      (''RF'', CHR ''&''),
      (''LT'', CHR ''<''),
      (''GT'', CHR ''>''),
      (''LP'', CHR ''(''),
      (''RP'', CHR '')''),
      (''u20'', CHR '' ''),
      (''u22'', CHR 0x5C),
      (''u27'', CHR 0x27),
      (''u2b'', CHR ''+''),
      (''u3b'', CHR '';''),
      (''u5b'', CHR ''[''),
      (''u5d'', CHR '']''),
      (''u7b'', CHR ''{''),
      (''u7d'', CHR ''}''),
      (''u7e'', CHR ''~'')]"

text \<open>
  \<^verbatim>\<open>rust_replace_dollar(it, eit, o)\<close>. The range \<^verbatim>\<open>[it, eit)\<close> is the list \<open>rest\<close>; the
  stream is passed in and returned with the flag. \<^verbatim>\<open>std::find\<close> stops at the first
  dollar sign, the token is what stands before it. The iterator is a value parameter:
  the caller's iterator is where it was when the function returns.
\<close>

definition rust_replace_dollar :: "string \<Rightarrow> string \<Rightarrow> bool \<times> string" where
  "rust_replace_dollar rest os =
     (if dropWhile (\<lambda>c. c \<noteq> CHR ''$'') rest = [] then (False, os)
      else
        (case map_of rust_dollar_map (takeWhile (\<lambda>c. c \<noteq> CHR ''$'') rest) of
           None \<Rightarrow> (False, os)
         | Some c \<Rightarrow> (True, os @ [c])))"

text \<open>
  The loop of \<^verbatim>\<open>rust_scan_replace\<close> from the iterator's position: the argument is the
  range \<^verbatim>\<open>[it, eit)\<close>. The underscore case leaves the switch without writing; the
  dollar case steps to the next character, fails at the end of the string or when
  \<^verbatim>\<open>rust_replace_dollar\<close> fails, and otherwise leaves the switch; the default case
  writes the character. After the switch the iterator steps once.
\<close>

fun rust_scan_replace_loop :: "string \<Rightarrow> string \<Rightarrow> bool \<times> string" where
  "rust_scan_replace_loop [] os = (True, os)"
| "rust_scan_replace_loop (c # cs) os =
     (if c = CHR ''_'' then rust_scan_replace_loop cs os
      else if c = CHR ''$'' then
        (case cs of
           [] \<Rightarrow> (False, os)
         | d # ds \<Rightarrow>
             (case rust_replace_dollar (d # ds) os of
                (False, os') \<Rightarrow> (False, os')
              | (True, os') \<Rightarrow> rust_scan_replace_loop ds os'))
      else rust_scan_replace_loop cs (os @ [c]))"

definition rust_scan_replace :: "string \<Rightarrow> string \<Rightarrow> bool \<times> string" where
  "rust_scan_replace s os = rust_scan_replace_loop s os"

subsection \<open>The structural pattern\<close>

text \<open>
  The regular expression \<^verbatim>\<open>(^[a-zA-Z0-9_.:$]+)::h([a-f0-9]{16})$\<close>, matched against the
  whole string by \<^verbatim>\<open>regex_match\<close>. A range of a bracket expression compares character
  codes. The first group is greedy: the matcher tries its longest extent first and
  backs off one character at a time until the rest of the expression matches up to
  the end of the string. The result holds the two groups.
\<close>

definition in_range :: "char \<Rightarrow> char \<Rightarrow> char \<Rightarrow> bool" where
  "in_range lo hi c = ((of_char lo :: nat) \<le> of_char c \<and> (of_char c :: nat) \<le> of_char hi)"

definition re_group1_class :: "char \<Rightarrow> bool" where
  "re_group1_class c =
     (in_range CHR ''a'' CHR ''z'' c \<or> in_range CHR ''A'' CHR ''Z'' c \<or>
      in_range CHR ''0'' CHR ''9'' c \<or>
      c = CHR ''_'' \<or> c = CHR ''.'' \<or> c = CHR '':'' \<or> c = CHR ''$'')"

definition re_group2_class :: "char \<Rightarrow> bool" where
  "re_group2_class c = (in_range CHR ''a'' CHR ''f'' c \<or> in_range CHR ''0'' CHR ''9'' c)"

definition re_tail_matches :: "string \<Rightarrow> bool" where
  "re_tail_matches t =
     (take 3 t = ''::h'' \<and> length (drop 3 t) = 16 \<and> list_all re_group2_class (drop 3 t))"

definition rust_regex_match :: "string \<Rightarrow> (string \<times> string) option" where
  "rust_regex_match rd =
     (case find (\<lambda>k. list_all re_group1_class (take k rd) \<and> re_tail_matches (drop k rd))
             (rev [1 ..< Suc (length rd)]) of
        None \<Rightarrow> None
      | Some k \<Rightarrow> Some (take k rd, drop (k + 3) rd))"

text \<open>
  \<^verbatim>\<open>RustLanguage::DemangleName\<close>. With \<^verbatim>\<open>HAVE_RUST_DEMANGLE\<close> the result of
  \<^verbatim>\<open>rust_demangle\<close> decides, and a null pointer returns before \<^verbatim>\<open>*demangled\<close> is
  touched. Without it \<^verbatim>\<open>*demangled\<close> is cleared first, then the platform demangler,
  the pattern and the scan follow; the scan writes to a fresh stream.
\<close>

definition RustLanguage_DemangleName ::
    "platform \<Rightarrow> string \<Rightarrow> string \<Rightarrow> fault + (DemangleResult \<times> string)" where
  "RustLanguage_DemangleName P mangled demangled =
     (if HAVE_RUST_DEMANGLE P then
        (case rust_demangle P (c_str mangled) of
           None \<Rightarrow> Inr (kDemangleFailure, demangled)
         | Some rust_demangled \<Rightarrow> Inr (kDemangleSuccess, rust_demangled))
      else
        (case cxa_demangle P (c_str mangled) of (status, cpp_demangled) \<Rightarrow>
           if status \<noteq> 0 then Inr (kDemangleFailure, [])
           else
             (case cpp_demangled of
                None \<Rightarrow> Inl NullPointerRead
              | Some rd \<Rightarrow>
                  (case rust_regex_match rd of
                     None \<Rightarrow> Inr (kDemangleFailure, [])
                   | Some (sm1, sm2) \<Rightarrow>
                       (case rust_scan_replace sm1 [] of
                          (False, os) \<Rightarrow> Inr (kDemangleFailure, [])
                        | (True, os) \<Rightarrow> Inr (kDemangleSuccess, os))))))"

subsection \<open>The pattern in the specification's words\<close>

text \<open>
  The specification describes the accepted intermediate strings without the regular
  expression: one or more characters that are letters, digits, underscore, full stop,
  colon or dollar sign, then the literal \<^verbatim>\<open>::h\<close>, then exactly sixteen lowercase
  hexadecimal digits, and nothing else. \<open>spec_legacy_pattern p h rd\<close> says that \<open>rd\<close>
  has this shape with prefix \<open>p\<close> and hash \<open>h\<close>. It is compared with
  \<open>rust_regex_match\<close> below.
\<close>

definition is_letter :: "char \<Rightarrow> bool" where
  "is_letter c = (c \<in> set ''abcdefghijklmnopqrstuvwxyzABCDEFGHIJKLMNOPQRSTUVWXYZ'')"

definition is_digit :: "char \<Rightarrow> bool" where
  "is_digit c = (c \<in> set ''0123456789'')"

definition is_lower_hex_digit :: "char \<Rightarrow> bool" where
  "is_lower_hex_digit c = (c \<in> set ''0123456789abcdef'')"

definition spec_prefix_char :: "char \<Rightarrow> bool" where
  "spec_prefix_char c =
     (is_letter c \<or> is_digit c \<or> c = CHR ''_'' \<or> c = CHR ''.'' \<or> c = CHR '':'' \<or> c = CHR ''$'')"

definition spec_legacy_pattern :: "string \<Rightarrow> string \<Rightarrow> string \<Rightarrow> bool" where
  "spec_legacy_pattern p h rd =
     (rd = p @ ''::h'' @ h \<and> p \<noteq> [] \<and> list_all spec_prefix_char p \<and>
      length h = 16 \<and> list_all is_lower_hex_digit h)"

section \<open>backtrace_handler.cc: the global handler context\<close>

text \<open>
  \<^verbatim>\<open>BacktraceHandlerContext\<close> with the fields its constructor fills from its arguments
  and from constants. The exception handler is built from the descriptor with
  \<^verbatim>\<open>install_handler = true\<close> and \<^verbatim>\<open>server_fd = -1\<close>; its filter and callback context
  are null and its callback is always \<^verbatim>\<open>MinidumpCallback\<close>. The HTTP layer is a fresh
  \<^verbatim>\<open>LibcurlWrapper\<close> with no data of its own at construction.
\<close>

record ExceptionHandler =
  descriptor :: string
  install_handler :: bool
  server_fd :: int

record BacktraceHandlerContext =
  url_ :: string
  token_ :: string
  attributes_ :: "string \<rightharpoonup> string"
  descriptor_ :: string
  handler_ :: ExceptionHandler

definition kDefaultDescriptorPath :: string where
  "kDefaultDescriptorPath = ''/tmp''"

definition new_BacktraceHandlerContext ::
    "string \<Rightarrow> string \<Rightarrow> (string \<rightharpoonup> string) \<Rightarrow> BacktraceHandlerContext" where
  "new_BacktraceHandlerContext url token attributes =
     \<lparr>url_ = url, token_ = token, attributes_ = attributes,
      descriptor_ = kDefaultDescriptorPath,
      handler_ = \<lparr>descriptor = kDefaultDescriptorPath, install_handler = True, server_fd = - 1\<rparr>\<rparr>"

text \<open>
  \<^verbatim>\<open>BacktraceHandler::Init\<close> on the global pointer \<^verbatim>\<open>ctx_\<close> (\<open>None\<close> is the null pointer):
  the state goes in and comes back with the returned flag. Calls are taken one after
  another, as the unprotected global requires of its callers.
\<close>

definition BacktraceHandler_Init ::
    "string \<Rightarrow> string \<Rightarrow> (string \<rightharpoonup> string) \<Rightarrow> BacktraceHandlerContext option \<Rightarrow>
     bool \<times> BacktraceHandlerContext option" where
  "BacktraceHandler_Init url token attributes ctx =
     (if ctx \<noteq> None then (False, ctx)
      else (True, Some (new_BacktraceHandlerContext url token attributes)))"

text \<open>A sequence of calls of \<^verbatim>\<open>Init\<close>: the flags in order and the final state.\<close>

fun Init_calls ::
    "(string \<times> string \<times> (string \<rightharpoonup> string)) list \<Rightarrow> BacktraceHandlerContext option \<Rightarrow>
     bool list \<times> BacktraceHandlerContext option" where
  "Init_calls [] ctx = ([], ctx)"
| "Init_calls ((url, token, attributes) # calls) ctx =
     (case BacktraceHandler_Init url token attributes ctx of
        (r, ctx') \<Rightarrow> (case Init_calls calls ctx' of (rs, ctx'') \<Rightarrow> (r # rs, ctx'')))"

section \<open>Example platforms\<close>

text \<open>
  Concrete platforms on which the operations are evaluated. The platform demangler
  of the examples knows six Itanium names and answers each as \<^verbatim>\<open>__cxa_demangle\<close> does
  (status 0 and the nested name with its components joined by \<^verbatim>\<open>::\<close>); every other name
  is invalid (status -2 and a null pointer).
\<close>

definition example_cxa_demangle :: "string \<Rightarrow> int \<times> string option" where
  "example_cxa_demangle name =
     (if name = ''_ZN3foo3barE'' then (0, Some ''foo::bar'')
      else if name = ''_ZN4core3fmt5write17h0123456789abcdefE''
        then (0, Some ''core::fmt::write::h0123456789abcdef'')
      else if name = ''_ZN4core3ptr13drop_in_place17h0123456789abcdefE''
        then (0, Some ''core::ptr::drop_in_place::h0123456789abcdef'')
      else if name = ''_ZN42_$LT$$RF$T$u20$as$u20$core..fmt..Debug$GT$3fmt17h0123456789abcdefE''
        then (0, Some ''_$LT$$RF$T$u20$as$u20$core..fmt..Debug$GT$::fmt::h0123456789abcdef'')
      else if name = ''_ZN4foo$17h0123456789abcdefE''
        then (0, Some ''foo$::h0123456789abcdef'')
      else if name = ''_ZN10foo$XX$bar17h0123456789abcdefE''
        then (0, Some ''foo$XX$bar::h0123456789abcdef'')
      else (- 2, None))"

text \<open>
  Two external Rust demanglers: one that knows a single name and returns a null
  pointer for every other, and one that returns a pointer to the empty string.
\<close>

definition example_rust_demangle :: "string \<Rightarrow> string option" where
  "example_rust_demangle name =
     (if name = ''_ZN4core3fmt5write17h0123456789abcdefE'' then Some ''core::fmt::write''
      else None)"

definition blank_rust_demangle :: "string \<Rightarrow> string option" where
  "blank_rust_demangle name = Some []"

definition linux_platform :: platform where
  "linux_platform =
     \<lparr>ANDROID = False, HAVE_RUST_DEMANGLE = False,
      cxa_demangle = example_cxa_demangle, rust_demangle = example_rust_demangle\<rparr>"

definition android_platform :: platform where
  "android_platform =
     \<lparr>ANDROID = True, HAVE_RUST_DEMANGLE = False,
      cxa_demangle = example_cxa_demangle, rust_demangle = example_rust_demangle\<rparr>"

definition rustc_platform :: platform where
  "rustc_platform =
     \<lparr>ANDROID = False, HAVE_RUST_DEMANGLE = True,
      cxa_demangle = example_cxa_demangle, rust_demangle = example_rust_demangle\<rparr>"

definition blank_rustc_platform :: platform where
  "blank_rustc_platform =
     \<lparr>ANDROID = False, HAVE_RUST_DEMANGLE = True,
      cxa_demangle = example_cxa_demangle, rust_demangle = blank_rust_demangle\<rparr>"

definition example_attributes :: "string \<rightharpoonup> string" where
  "example_attributes = [''hostname'' \<mapsto> ''web1'']"

section \<open>Qualified names: the separators\<close>

lemma MakeQualifiedNameWithSeparator_empty:
  "MakeQualifiedNameWithSeparator [] sep name = name"
  by (simp add: MakeQualifiedNameWithSeparator_def)

lemma MakeQualifiedNameWithSeparator_nonempty:
  "parent_name \<noteq> [] \<Longrightarrow>
   MakeQualifiedNameWithSeparator parent_name sep name = parent_name @ sep @ name"
  by (simp add: MakeQualifiedNameWithSeparator_def)

text \<open>
  C8. With an empty parent every variant returns the name unchanged. With a non-empty
  parent C++ joins parent and name with \<^verbatim>\<open>::\<close>, Java, Swift and Rust join them with a
  full stop. Assembler returns the name whatever the parent is.
\<close>

theorem MakeQualifiedName_separators:
  "MakeQualifiedName lang [] name = name \<and>
   (parent_name \<noteq> [] \<longrightarrow>
      MakeQualifiedName CPlusPlus parent_name name = parent_name @ ''::'' @ name \<and>
      MakeQualifiedName Java parent_name name = parent_name @ ''.'' @ name \<and>
      MakeQualifiedName Swift parent_name name = parent_name @ ''.'' @ name \<and>
      MakeQualifiedName Rust parent_name name = parent_name @ ''.'' @ name) \<and>
   MakeQualifiedName Assembler parent_name name = name"
proof (intro conjI impI)
  show "MakeQualifiedName lang [] name = name"
    by (cases lang) (simp_all add: MakeQualifiedNameWithSeparator_empty)
next
  assume "parent_name \<noteq> []"
  then show "MakeQualifiedName CPlusPlus parent_name name = parent_name @ ''::'' @ name"
    by (simp add: MakeQualifiedNameWithSeparator_nonempty)
next
  assume "parent_name \<noteq> []"
  then show "MakeQualifiedName Java parent_name name = parent_name @ ''.'' @ name"
    by (simp add: MakeQualifiedNameWithSeparator_nonempty)
next
  assume "parent_name \<noteq> []"
  then show "MakeQualifiedName Swift parent_name name = parent_name @ ''.'' @ name"
    by (simp add: MakeQualifiedNameWithSeparator_nonempty)
next
  assume "parent_name \<noteq> []"
  then show "MakeQualifiedName Rust parent_name name = parent_name @ ''.'' @ name"
    by (simp add: MakeQualifiedNameWithSeparator_nonempty)
next
  show "MakeQualifiedName Assembler parent_name name = name"
    by simp
qed

theorem MakeQualifiedName_separators_witness:
  "MakeQualifiedName Swift [] ''B'' = ''B'' \<and>
   MakeQualifiedName CPlusPlus ''A'' ''B'' = ''A::B'' \<and>
   MakeQualifiedName Java ''A'' ''B'' = ''A.B'' \<and>
   MakeQualifiedName Swift ''A'' ''B'' = ''A.B'' \<and>
   MakeQualifiedName Rust ''A'' ''B'' = ''A.B'' \<and>
   MakeQualifiedName Assembler ''A'' ''B'' = ''B''"
proof -
  have nonempty: "''A'' \<noteq> []"
    by simp
  from MakeQualifiedName_separators [of Swift "''B''" "''A''"] nonempty
  show ?thesis
    by simp
qed

section \<open>Swift: the pass-through\<close>

text \<open>
  C7. For every mangled name, and whatever the output string held before, the Swift
  operation reports success and the output string is the mangled name itself.
\<close>

theorem SwiftLanguage_DemangleName_passthrough:
  "SwiftLanguage_DemangleName mangled demangled = (kDemangleSuccess, mangled)"
  by (simp add: SwiftLanguage_DemangleName_def)

section \<open>The scan of the captured prefix\<close>

text \<open>
  Two facts describe the scan completely. A prefix with a dollar sign anywhere makes the
  scan fail: after a token has been replaced the scan goes on from the second
  character of the token, so the closing dollar sign is read as an opening one, and
  the last dollar sign of the prefix has no closing one. A prefix without a dollar
  sign is copied to the stream except for its underscores.
\<close>

lemma rust_dollar_map_Nil: "map_of rust_dollar_map [] = None"
  by (simp add: rust_dollar_map_def)

lemma rust_replace_dollar_True:
  assumes "rust_replace_dollar (d # ds) os = (True, os')"
  shows "d \<noteq> CHR ''$'' \<and> CHR ''$'' \<in> set ds"
proof -
  from assms have nonempty: "dropWhile (\<lambda>c. c \<noteq> CHR ''$'') (d # ds) \<noteq> []"
    by (auto simp: rust_replace_dollar_def split: if_splits)
  from assms have found: "map_of rust_dollar_map (takeWhile (\<lambda>c. c \<noteq> CHR ''$'') (d # ds)) \<noteq> None"
    by (auto simp: rust_replace_dollar_def split: if_splits option.splits)
  have d: "d \<noteq> CHR ''$''"
  proof
    assume "d = CHR ''$''"
    with found show False by (simp add: rust_dollar_map_Nil)
  qed
  from nonempty d have "CHR ''$'' \<in> set ds"
    by auto
  with d show ?thesis by simp
qed

lemma rust_replace_dollar_False:
  "rust_replace_dollar rest os = (False, os') \<Longrightarrow> os' = os"
  by (auto simp: rust_replace_dollar_def split: if_splits option.splits)

lemma scan_dollar_fails:
  "CHR ''$'' \<in> set s \<Longrightarrow> fst (rust_scan_replace_loop s os) = False"
proof (induction s os rule: rust_scan_replace_loop.induct)
  case (1 os)
  then show ?case by simp
next
  case (2 c cs os)
  show ?case
  proof (cases "c = CHR ''_''")
    case True
    with 2 show ?thesis by simp
  next
    case not_us: False
    show ?thesis
    proof (cases "c = CHR ''$''")
      case False
      with not_us 2 show ?thesis by simp
    next
      case dollar: True
      show ?thesis
      proof (cases cs)
        case Nil
        with dollar show ?thesis by simp
      next
        case (Cons d ds)
        show ?thesis
        proof (cases "rust_replace_dollar (d # ds) os")
          case (Pair ok os')
          show ?thesis
          proof (cases ok)
            case False
            with Pair Cons dollar show ?thesis by simp
          next
            case True
            with Pair have "rust_replace_dollar (d # ds) os = (True, os')"
              by simp
            then have "CHR ''$'' \<in> set ds"
              by (simp add: rust_replace_dollar_True)
            with "2.IH"(2) [OF not_us dollar Cons Pair [symmetric]] True
            have "fst (rust_scan_replace_loop ds os') = False"
              by simp
            with True Pair Cons dollar show ?thesis
              by simp
          qed
        qed
      qed
    qed
  qed
qed

lemma scan_no_dollar:
  "CHR ''$'' \<notin> set s \<Longrightarrow>
   rust_scan_replace_loop s os = (True, os @ filter (\<lambda>c. c \<noteq> CHR ''_'') s)"
  by (induction s arbitrary: os) auto

section \<open>The regular expression and the pattern of the specification\<close>

text \<open>
  A range of the bracket expression holds exactly the characters whose codes lie
  between its ends; listing them turns the ranges of the source into the letters and
  digits the specification names.
\<close>

lemma in_range_iff:
  "in_range lo hi c \<longleftrightarrow> c \<in> set (map char_of [of_char lo ..< Suc (of_char hi) :: nat])"
proof
  assume "in_range lo hi c"
  then have "(of_char c :: nat) \<in> set [of_char lo ..< Suc (of_char hi)]"
    by (auto simp: in_range_def less_Suc_eq_le)
  then have "char_of (of_char c :: nat) \<in> char_of ` set [of_char lo ..< Suc (of_char hi) :: nat]"
    by (rule imageI)
  then show "c \<in> set (map char_of [of_char lo ..< Suc (of_char hi) :: nat])"
    by simp
next
  assume "c \<in> set (map char_of [of_char lo ..< Suc (of_char hi) :: nat])"
  then obtain n :: nat where n: "c = char_of n" "of_char lo \<le> n" "n \<le> of_char hi"
    by auto
  have "(of_char hi :: nat) < 256"
    by simp
  with n have "n < 256"
    by linarith
  then have "n mod 256 = n"
    by simp
  with n show "in_range lo hi c"
    by (simp add: in_range_def)
qed

lemma range_lower:
  "map char_of [of_char CHR ''a'' ..< Suc (of_char CHR ''z'') :: nat] =
     ''abcdefghijklmnopqrstuvwxyz''"
  by code_simp

lemma range_upper:
  "map char_of [of_char CHR ''A'' ..< Suc (of_char CHR ''Z'') :: nat] =
     ''ABCDEFGHIJKLMNOPQRSTUVWXYZ''"
  by code_simp

lemma range_digit:
  "map char_of [of_char CHR ''0'' ..< Suc (of_char CHR ''9'') :: nat] = ''0123456789''"
  by code_simp

lemma range_hex:
  "map char_of [of_char CHR ''a'' ..< Suc (of_char CHR ''f'') :: nat] = ''abcdef''"
  by code_simp

lemma group2_eq: "re_group2_class c = is_lower_hex_digit c"
  unfolding re_group2_class_def is_lower_hex_digit_def in_range_iff range_hex range_digit
  by auto

lemma group1_eq:
  "re_group1_class c =
     (is_letter c \<or> is_digit c \<or>
      c = CHR ''_'' \<or> c = CHR ''.'' \<or> c = CHR '':'' \<or> c = CHR ''$'')"
  unfolding re_group1_class_def is_letter_def is_digit_def in_range_iff
    range_lower range_upper range_digit
  by auto

text \<open>
  The greedy search of \<open>rust_regex_match\<close> has at most one extent to find: the rest of
  the expression takes exactly nineteen characters, so the first group ends nineteen
  characters before the end of the string.
\<close>

lemma find_unique:
  assumes "x \<in> set xs" "P x" "\<And>y. y \<in> set xs \<Longrightarrow> P y \<Longrightarrow> y = x"
  shows "find P xs = Some x"
  using assms
proof (induction xs)
  case Nil
  then show ?case by simp
next
  case (Cons a xs)
  show ?case
  proof (cases "P a")
    case True
    have "a = x"
      by (rule Cons.prems(3)) (simp_all add: True)
    with True show ?thesis by simp
  next
    case False
    with Cons.prems(1,2) have mem: "x \<in> set xs"
      by auto
    have "find P xs = Some x"
    proof (rule Cons.IH [OF mem Cons.prems(2)])
      fix y
      assume "y \<in> set xs" "P y"
      then show "y = x"
        using Cons.prems(3) [of y] by simp
    qed
    with False show ?thesis by simp
  qed
qed

lemma find_SomeD: "find P xs = Some x \<Longrightarrow> P x \<and> x \<in> set xs"
  by (induction xs) (auto split: if_splits)

lemma re_tail_length: "re_tail_matches t \<Longrightarrow> length t = 19"
  by (auto simp: re_tail_matches_def)

lemma re_tail_split: "re_tail_matches t \<Longrightarrow> t = ''::h'' @ drop 3 t"
proof -
  assume "re_tail_matches t"
  then have "take 3 t = ''::h''"
    by (simp add: re_tail_matches_def)
  then have "take 3 t @ drop 3 t = ''::h'' @ drop 3 t"
    by (simp only:)
  then show ?thesis
    by (simp only: append_take_drop_id)
qed

lemma re_tail_intro:
  "length h = 16 \<Longrightarrow> list_all re_group2_class h \<Longrightarrow> re_tail_matches (''::h'' @ h)"
  by (simp add: re_tail_matches_def)

lemma rust_regex_match_SomeD:
  assumes "rust_regex_match rd = Some (p, h)"
  shows "rd = p @ ''::h'' @ h \<and> p \<noteq> [] \<and> list_all re_group1_class p \<and>
         length h = 16 \<and> list_all re_group2_class h"
proof -
  let ?Q = "\<lambda>k. list_all re_group1_class (take k rd) \<and> re_tail_matches (drop k rd)"
  from assms obtain k where k: "find ?Q (rev [1 ..< Suc (length rd)]) = Some k"
      and p: "p = take k rd" and h: "h = drop (k + 3) rd"
    by (auto simp: rust_regex_match_def split: option.splits)
  from find_SomeD [OF k] have Q: "?Q k" and mem: "k \<in> set (rev [1 ..< Suc (length rd)])"
    by blast+
  from Q have tail: "re_tail_matches (drop k rd)"
    by simp
  from mem have "1 \<le> k" "k \<le> length rd"
    by auto
  with p have "p \<noteq> []"
    by auto
  have h': "h = drop 3 (drop k rd)"
    using h by (simp add: add.commute)
  have "rd = take k rd @ drop k rd"
    by simp
  also have "drop k rd = ''::h'' @ h"
    using re_tail_split [OF tail] h' by simp
  finally have "rd = p @ ''::h'' @ h"
    using p by simp
  moreover from tail h' have "length h = 16" "list_all re_group2_class h"
    by (simp_all add: re_tail_matches_def)
  moreover from Q p have "list_all re_group1_class p"
    by simp
  ultimately show ?thesis
    using \<open>p \<noteq> []\<close> by simp
qed

lemma rust_regex_match_SomeI:
  assumes "rd = p @ ''::h'' @ h" "p \<noteq> []" "list_all re_group1_class p"
    "length h = 16" "list_all re_group2_class h"
  shows "rust_regex_match rd = Some (p, h)"
proof -
  let ?Q = "\<lambda>k. list_all re_group1_class (take k rd) \<and> re_tail_matches (drop k rd)"
  have len: "length rd = length p + 19"
    using assms by simp
  have "find ?Q (rev [1 ..< Suc (length rd)]) = Some (length p)"
  proof (rule find_unique)
    show "length p \<in> set (rev [1 ..< Suc (length rd)])"
      using assms(2) len by (cases p) auto
    show "?Q (length p)"
      using assms(1,3) re_tail_intro [OF assms(4,5)] by simp
  next
    fix y
    assume "y \<in> set (rev [1 ..< Suc (length rd)])" and "?Q y"
    then have "re_tail_matches (drop y rd)"
      by simp
    then have "length (drop y rd) = 19"
      by (rule re_tail_length)
    then have "length rd - y = 19"
      by simp
    with len show "y = length p"
      by linarith
  qed
  then show ?thesis
    using assms by (simp add: rust_regex_match_def)
qed

text \<open>The two facts about the scan, for \<open>rust_scan_replace\<close> itself.\<close>

lemma rust_scan_replace_dollar:
  "CHR ''$'' \<in> set s \<Longrightarrow> fst (rust_scan_replace s os) = False"
  by (simp add: rust_scan_replace_def scan_dollar_fails)

lemma rust_scan_replace_no_dollar:
  "CHR ''$'' \<notin> set s \<Longrightarrow>
   rust_scan_replace s os = (True, os @ filter (\<lambda>c. c \<noteq> CHR ''_'') s)"
  by (simp add: rust_scan_replace_def scan_no_dollar)

text \<open>
  The match of the source and the pattern of the specification accept the same
  strings, with the same prefix and hash.
\<close>

lemma spec_prefix_char_eq: "spec_prefix_char = re_group1_class"
  by (rule ext) (simp add: spec_prefix_char_def group1_eq)

lemma is_lower_hex_digit_eq: "is_lower_hex_digit = re_group2_class"
  by (rule ext) (simp add: group2_eq)

lemma rust_regex_match_Some_iff:
  "rust_regex_match rd = Some (p, h) \<longleftrightarrow> spec_legacy_pattern p h rd"
proof
  assume "rust_regex_match rd = Some (p, h)"
  from rust_regex_match_SomeD [OF this] show "spec_legacy_pattern p h rd"
    by (simp add: spec_legacy_pattern_def spec_prefix_char_eq is_lower_hex_digit_eq)
next
  assume "spec_legacy_pattern p h rd"
  then have "rd = p @ ''::h'' @ h" "p \<noteq> []" "list_all re_group1_class p"
      "length h = 16" "list_all re_group2_class h"
    by (simp_all add: spec_legacy_pattern_def spec_prefix_char_eq is_lower_hex_digit_eq)
  then show "rust_regex_match rd = Some (p, h)"
    by (rule rust_regex_match_SomeI)
qed

lemma rust_regex_match_None_iff:
  "rust_regex_match rd = None \<longleftrightarrow> (\<nexists>p h. spec_legacy_pattern p h rd)"
proof -
  have "rust_regex_match rd = None \<longleftrightarrow> (\<nexists>p h. rust_regex_match rd = Some (p, h))"
    by (cases "rust_regex_match rd") auto
  then show ?thesis
    by (simp only: rust_regex_match_Some_iff)
qed

text \<open>The fallback path once the platform demangler has answered status 0.\<close>

lemma RustLanguage_DemangleName_fallback:
  assumes "\<not> HAVE_RUST_DEMANGLE P" and "cxa_demangle P (c_str mangled) = (0, Some rd)"
  shows "RustLanguage_DemangleName P mangled demangled =
           (case rust_regex_match rd of
              None \<Rightarrow> Inr (kDemangleFailure, [])
            | Some (sm1, sm2) \<Rightarrow>
                (case rust_scan_replace sm1 [] of
                   (False, os) \<Rightarrow> Inr (kDemangleFailure, [])
                 | (True, os) \<Rightarrow> Inr (kDemangleSuccess, os)))"
  using assms by (simp add: RustLanguage_DemangleName_def)

text \<open>Once a context is installed, every call returns false and keeps it.\<close>

lemma Init_calls_installed:
  "Init_calls calls (Some c) = (replicate (length calls) False, Some c)"
proof (induction calls)
  case Nil
  show ?case by simp
next
  case (Cons call calls)
  obtain url token attributes where call: "call = (url, token, attributes)"
    by (cases call)
  from Cons.IH show ?case
    by (simp add: call BacktraceHandler_Init_def)
qed

section \<open>The Rust fallback: the structural pattern\<close>

text \<open>
  C5. Without the external Rust demangler, and once the platform demangler has
  answered status 0 with the intermediate string \<open>rd\<close>: when \<open>rd\<close> is not of the shape
  prefix, \<^verbatim>\<open>::h\<close>, sixteen lowercase hexadecimal digits, with a non-empty prefix of
  letters, digits, underscores, full stops, colons and dollar signs, the result is
  failure with an empty output; when it is of that shape, the result is what the scan
  of the prefix alone gives, the hash taking no part.
\<close>

theorem RustLanguage_DemangleName_pattern:
  assumes "\<not> HAVE_RUST_DEMANGLE P" and "cxa_demangle P (c_str mangled) = (0, Some rd)"
  shows "((\<nexists>p h. spec_legacy_pattern p h rd) \<longrightarrow>
            RustLanguage_DemangleName P mangled demangled = Inr (kDemangleFailure, [])) \<and>
         (spec_legacy_pattern p h rd \<longrightarrow>
            RustLanguage_DemangleName P mangled demangled =
              (case rust_scan_replace p [] of
                 (False, os) \<Rightarrow> Inr (kDemangleFailure, [])
               | (True, os) \<Rightarrow> Inr (kDemangleSuccess, os)))"
proof (intro conjI impI)
  assume "\<nexists>p h. spec_legacy_pattern p h rd"
  then have "rust_regex_match rd = None"
    by (simp add: rust_regex_match_None_iff)
  then show "RustLanguage_DemangleName P mangled demangled = Inr (kDemangleFailure, [])"
    by (simp add: RustLanguage_DemangleName_fallback [OF assms])
next
  assume "spec_legacy_pattern p h rd"
  then have "rust_regex_match rd = Some (p, h)"
    by (simp only: rust_regex_match_Some_iff)
  then show "RustLanguage_DemangleName P mangled demangled =
      (case rust_scan_replace p [] of
         (False, os) \<Rightarrow> Inr (kDemangleFailure, [])
       | (True, os) \<Rightarrow> Inr (kDemangleSuccess, os))"
    by (simp add: RustLanguage_DemangleName_fallback [OF assms])
qed

theorem RustLanguage_DemangleName_pattern_witness:
  "RustLanguage_DemangleName linux_platform ''_ZN3foo3barE'' ''old'' =
     Inr (kDemangleFailure, []) \<and>
   RustLanguage_DemangleName linux_platform ''_ZN4core3fmt5write17h0123456789abcdefE'' ''old'' =
     Inr (kDemangleSuccess, ''core::fmt::write'')"
proof -
  have build: "\<not> HAVE_RUST_DEMANGLE linux_platform"
    by (simp add: linux_platform_def)
  have cxa1: "cxa_demangle linux_platform (c_str ''_ZN3foo3barE'') = (0, Some ''foo::bar'')"
    by code_simp
  have "rust_regex_match ''foo::bar'' = None"
    by code_simp
  then have no_match: "\<nexists>p h. spec_legacy_pattern p h ''foo::bar''"
    by (simp add: rust_regex_match_None_iff)
  have cxa2: "cxa_demangle linux_platform (c_str ''_ZN4core3fmt5write17h0123456789abcdefE'') =
      (0, Some ''core::fmt::write::h0123456789abcdef'')"
    by code_simp
  have match: "spec_legacy_pattern ''core::fmt::write'' ''0123456789abcdef''
      ''core::fmt::write::h0123456789abcdef''"
    by code_simp
  have scan: "rust_scan_replace ''core::fmt::write'' [] = (True, ''core::fmt::write'')"
    by code_simp
  from RustLanguage_DemangleName_pattern [OF build cxa1, of "''old''"] no_match
  have first: "RustLanguage_DemangleName linux_platform ''_ZN3foo3barE'' ''old'' =
      Inr (kDemangleFailure, [])"
    by blast
  from RustLanguage_DemangleName_pattern [OF build cxa2, of "''old''" "''core::fmt::write''"
      "''0123456789abcdef''"] match scan
  have "RustLanguage_DemangleName linux_platform ''_ZN4core3fmt5write17h0123456789abcdefE'' ''old'' =
      Inr (kDemangleSuccess, ''core::fmt::write'')"
    by simp
  with first show ?thesis
    by simp
qed

section \<open>The Rust fallback: dollar signs that cannot be decoded\<close>

text \<open>
  C4. Without the external Rust demangler, when the platform demangler has answered
  status 0 and the intermediate string has the accepted shape: if the captured
  prefix holds a dollar sign whose token (what stands between it and the next dollar
  sign) is not a key of the escape table, or after which no dollar sign follows, then
  the scan fails and the operation returns failure with an empty output. A prefix
  that ends in a dollar sign is the case of an empty remainder. By
  \<open>rust_scan_replace_dollar\<close> the scan fails at every dollar sign, these included.
\<close>

theorem RustLanguage_DemangleName_dollar_failure:
  assumes "\<not> HAVE_RUST_DEMANGLE P"
    and "cxa_demangle P (c_str mangled) = (0, Some rd)"
    and "spec_legacy_pattern prefix h rd"
    and "prefix = pre @ CHR ''$'' # rest"
    and "CHR ''$'' \<notin> set rest \<or>
         map_of rust_dollar_map (takeWhile (\<lambda>c. c \<noteq> CHR ''$'') rest) = None"
  shows "fst (rust_scan_replace prefix []) = False \<and>
         RustLanguage_DemangleName P mangled demangled = Inr (kDemangleFailure, [])"
proof -
  from assms(4) have "CHR ''$'' \<in> set prefix"
    by simp
  then have failed: "fst (rust_scan_replace prefix []) = False"
    by (rule rust_scan_replace_dollar)
  from assms(3) have "rust_regex_match rd = Some (prefix, h)"
    by (simp only: rust_regex_match_Some_iff)
  with failed have "RustLanguage_DemangleName P mangled demangled = Inr (kDemangleFailure, [])"
    by (cases "rust_scan_replace prefix []")
       (simp add: RustLanguage_DemangleName_fallback [OF assms(1,2)])
  with failed show ?thesis
    by simp
qed

theorem RustLanguage_DemangleName_dollar_failure_witness:
  "fst (rust_scan_replace ''foo$'' []) = False \<and>
   RustLanguage_DemangleName linux_platform ''_ZN4foo$17h0123456789abcdefE'' ''old'' =
     Inr (kDemangleFailure, []) \<and>
   fst (rust_scan_replace ''foo$XX$bar'' []) = False \<and>
   RustLanguage_DemangleName linux_platform ''_ZN10foo$XX$bar17h0123456789abcdefE'' ''old'' =
     Inr (kDemangleFailure, [])"
proof -
  have build: "\<not> HAVE_RUST_DEMANGLE linux_platform"
    by (simp add: linux_platform_def)
  have cxa1: "cxa_demangle linux_platform (c_str ''_ZN4foo$17h0123456789abcdefE'') =
      (0, Some ''foo$::h0123456789abcdef'')"
    by code_simp
  have match1: "spec_legacy_pattern ''foo$'' ''0123456789abcdef'' ''foo$::h0123456789abcdef''"
    by code_simp
  have split1: "''foo$'' = ''foo'' @ CHR ''$'' # []"
    by simp
  have unmatched: "CHR ''$'' \<notin> set [] \<or>
      map_of rust_dollar_map (takeWhile (\<lambda>c. c \<noteq> CHR ''$'') []) = None"
    by simp
  have cxa2: "cxa_demangle linux_platform (c_str ''_ZN10foo$XX$bar17h0123456789abcdefE'') =
      (0, Some ''foo$XX$bar::h0123456789abcdef'')"
    by code_simp
  have match2: "spec_legacy_pattern ''foo$XX$bar'' ''0123456789abcdef''
      ''foo$XX$bar::h0123456789abcdef''"
    by code_simp
  have split2: "''foo$XX$bar'' = ''foo'' @ CHR ''$'' # ''XX$bar''"
    by simp
  have "map_of rust_dollar_map (takeWhile (\<lambda>c. c \<noteq> CHR ''$'') ''XX$bar'') = None"
    by code_simp
  then have unknown: "CHR ''$'' \<notin> set ''XX$bar'' \<or>
      map_of rust_dollar_map (takeWhile (\<lambda>c. c \<noteq> CHR ''$'') ''XX$bar'') = None"
    by (rule disjI2)
  from RustLanguage_DemangleName_dollar_failure [OF build cxa1 match1 split1 unmatched, of "''old''"]
    RustLanguage_DemangleName_dollar_failure [OF build cxa2 match2 split2 unknown, of "''old''"]
  show ?thesis
    by blast
qed

section \<open>C++: the three outcomes\<close>

text \<open>
  C6. On a build without the platform demangler (Android) the C++ operation returns
  \<^verbatim>\<open>kDontDemangle\<close> with the output cleared. Otherwise, when the platform demangler
  reports status 0 and hands back the decoded string, the operation returns success
  with that string; when it reports any other status, the operation returns failure
  with the output cleared.
\<close>

theorem CPPLanguage_DemangleName_outcomes:
  "(ANDROID P \<longrightarrow>
      CPPLanguage_DemangleName P mangled demangled = Inr (kDontDemangle, [])) \<and>
   (\<not> ANDROID P \<and> cxa_demangle P (c_str mangled) = (0, Some s) \<longrightarrow>
      CPPLanguage_DemangleName P mangled demangled = Inr (kDemangleSuccess, s)) \<and>
   (\<not> ANDROID P \<and> cxa_demangle P (c_str mangled) = (status, demangled_c) \<and> status \<noteq> 0 \<longrightarrow>
      CPPLanguage_DemangleName P mangled demangled = Inr (kDemangleFailure, []))"
  by (simp add: CPPLanguage_DemangleName_def)

theorem CPPLanguage_DemangleName_outcomes_witness:
  "CPPLanguage_DemangleName android_platform ''_ZN3foo3barE'' ''old'' = Inr (kDontDemangle, []) \<and>
   CPPLanguage_DemangleName linux_platform ''_ZN3foo3barE'' ''old'' =
     Inr (kDemangleSuccess, ''foo::bar'') \<and>
   CPPLanguage_DemangleName linux_platform ''_ZN3foo'' ''old'' = Inr (kDemangleFailure, [])"
proof -
  have android: "ANDROID android_platform"
    by (simp add: android_platform_def)
  have linux: "\<not> ANDROID linux_platform"
    by (simp add: linux_platform_def)
  have ok: "cxa_demangle linux_platform (c_str ''_ZN3foo3barE'') = (0, Some ''foo::bar'')"
    by code_simp
  have bad: "cxa_demangle linux_platform (c_str ''_ZN3foo'') = (- 2, None)"
    by code_simp
  have nonzero: "(- 2 :: int) \<noteq> 0"
    by simp
  from CPPLanguage_DemangleName_outcomes [of android_platform "''_ZN3foo3barE''" "''old''"] android
  have first: "CPPLanguage_DemangleName android_platform ''_ZN3foo3barE'' ''old'' =
      Inr (kDontDemangle, [])"
    by blast
  from CPPLanguage_DemangleName_outcomes [of linux_platform "''_ZN3foo3barE''" "''old''" "''foo::bar''"]
    linux ok
  have second: "CPPLanguage_DemangleName linux_platform ''_ZN3foo3barE'' ''old'' =
      Inr (kDemangleSuccess, ''foo::bar'')"
    by blast
  from CPPLanguage_DemangleName_outcomes [of linux_platform "''_ZN3foo''" "''old''" _ "- 2" None]
    linux bad nonzero
  have "CPPLanguage_DemangleName linux_platform ''_ZN3foo'' ''old'' = Inr (kDemangleFailure, [])"
    by blast
  with first second show ?thesis
    by simp
qed

section \<open>Rust with the external demangler\<close>

text \<open>
  C9, as amended. With the external Rust demangler built in, the operation returns
  success exactly when the external demangler returns a pointer that is not null, and
  the output is then the string it points to, which may be empty; it returns failure
  when the pointer is null.
\<close>

theorem RustLanguage_DemangleName_external:
  assumes "HAVE_RUST_DEMANGLE P"
  shows "(rust_demangle P (c_str mangled) = Some s \<longrightarrow>
            RustLanguage_DemangleName P mangled demangled = Inr (kDemangleSuccess, s)) \<and>
         (rust_demangle P (c_str mangled) = None \<longrightarrow>
            (\<exists>out. RustLanguage_DemangleName P mangled demangled = Inr (kDemangleFailure, out)))"
  using assms by (simp add: RustLanguage_DemangleName_def)

theorem RustLanguage_DemangleName_external_witness:
  "RustLanguage_DemangleName rustc_platform ''_ZN4core3fmt5write17h0123456789abcdefE'' [] =
     Inr (kDemangleSuccess, ''core::fmt::write'') \<and>
   (\<exists>out. RustLanguage_DemangleName rustc_platform ''main'' [] = Inr (kDemangleFailure, out))"
proof -
  have build: "HAVE_RUST_DEMANGLE rustc_platform"
    by (simp add: rustc_platform_def)
  have known: "rust_demangle rustc_platform (c_str ''_ZN4core3fmt5write17h0123456789abcdefE'') =
      Some ''core::fmt::write''"
    by code_simp
  have unknown: "rust_demangle rustc_platform (c_str ''main'') = None"
    by code_simp
  from RustLanguage_DemangleName_external [OF build, of "''_ZN4core3fmt5write17h0123456789abcdefE''"
      "''core::fmt::write''" "[]"] known
  have first: "RustLanguage_DemangleName rustc_platform ''_ZN4core3fmt5write17h0123456789abcdefE'' [] =
      Inr (kDemangleSuccess, ''core::fmt::write'')"
    by blast
  from RustLanguage_DemangleName_external [OF build, of "''main''" _ "[]"] unknown
  have "\<exists>out. RustLanguage_DemangleName rustc_platform ''main'' [] = Inr (kDemangleFailure, out)"
    by blast
  with first show ?thesis
    by simp
qed

text \<open>
  The claim as written fails where the external demangler returns a pointer to the
  empty string: the string is not a non-empty decoded string, and the operation still
  returns success.
\<close>

theorem RustLanguage_DemangleName_external_counterexample:
  "rust_demangle blank_rustc_platform (c_str ''main'') = Some [] \<and>
   RustLanguage_DemangleName blank_rustc_platform ''main'' [] = Inr (kDemangleSuccess, [])"
  by (simp add: RustLanguage_DemangleName_def blank_rustc_platform_def blank_rust_demangle_def)

section \<open>BacktraceHandler::Init\<close>

text \<open>
  C10. \<^verbatim>\<open>Init\<close> returns true exactly when no context is installed; it then installs
  the context built from its arguments. When a context is installed it returns
  false and leaves the context as it is. So in a sequence of calls starting without
  a context the first returns true, every later one returns false, and the context at
  the end is the one the first call built.
\<close>

theorem BacktraceHandler_Init_once:
  "(fst (BacktraceHandler_Init url token attributes ctx) \<longleftrightarrow> ctx = None) \<and>
   (ctx = None \<longrightarrow>
      snd (BacktraceHandler_Init url token attributes ctx) =
        Some (new_BacktraceHandlerContext url token attributes)) \<and>
   (ctx \<noteq> None \<longrightarrow> snd (BacktraceHandler_Init url token attributes ctx) = ctx) \<and>
   Init_calls ((url, token, attributes) # calls) None =
     (True # replicate (length calls) False,
      Some (new_BacktraceHandlerContext url token attributes))"
  by (simp add: BacktraceHandler_Init_def Init_calls_installed)

theorem BacktraceHandler_Init_once_witness:
  "fst (BacktraceHandler_Init ''https://a.example'' ''t1'' example_attributes None) \<and>
   snd (BacktraceHandler_Init ''https://a.example'' ''t1'' example_attributes None) =
     Some (new_BacktraceHandlerContext ''https://a.example'' ''t1'' example_attributes) \<and>
   BacktraceHandler_Init ''https://b.example'' ''t2'' Map.empty
     (Some (new_BacktraceHandlerContext ''https://a.example'' ''t1'' example_attributes)) =
     (False, Some (new_BacktraceHandlerContext ''https://a.example'' ''t1'' example_attributes)) \<and>
   Init_calls
     [(''https://a.example'', ''t1'', example_attributes),
      (''https://b.example'', ''t2'', Map.empty),
      (''https://c.example'', ''t3'', example_attributes)] None =
     ([True, False, False],
      Some (new_BacktraceHandlerContext ''https://a.example'' ''t1'' example_attributes))"
proof -
  let ?installed = "Some (new_BacktraceHandlerContext ''https://a.example'' ''t1'' example_attributes)"
  have installed: "?installed \<noteq> None"
    by simp
  from BacktraceHandler_Init_once [of "''https://a.example''" "''t1''" example_attributes None
      "[(''https://b.example'', ''t2'', Map.empty), (''https://c.example'', ''t3'', example_attributes)]"]
  have first: "fst (BacktraceHandler_Init ''https://a.example'' ''t1'' example_attributes None)"
    and built: "snd (BacktraceHandler_Init ''https://a.example'' ''t1'' example_attributes None) =
      ?installed"
    and run: "Init_calls
     [(''https://a.example'', ''t1'', example_attributes),
      (''https://b.example'', ''t2'', Map.empty),
      (''https://c.example'', ''t3'', example_attributes)] None = ([True, False, False], ?installed)"
    by simp_all
  from BacktraceHandler_Init_once [of "''https://b.example''" "''t2''" Map.empty ?installed "[]"]
    installed
  have "fst (BacktraceHandler_Init ''https://b.example'' ''t2'' Map.empty ?installed) = False"
    and "snd (BacktraceHandler_Init ''https://b.example'' ''t2'' Map.empty ?installed) = ?installed"
    by simp_all
  then have "BacktraceHandler_Init ''https://b.example'' ''t2'' Map.empty ?installed =
      (False, ?installed)"
    by (simp add: prod_eq_iff)
  with first built run show ?thesis
    by simp
qed

section \<open>Where the code departs from the specification\<close>

text \<open>
  C1. The prefix of \<^verbatim>\<open><&T as core::fmt::Debug>::fmt\<close> in the legacy mangling holds the
  tokens \<^verbatim>\<open>$LT$\<close>, \<^verbatim>\<open>$RF$\<close>, \<^verbatim>\<open>$u20$\<close> and \<^verbatim>\<open>$GT$\<close>, all of the escape table. The scan
  of \<^verbatim>\<open>$RF$\<close> alone writes the ampersand, then goes on at the letter F instead of after
  the closing dollar sign, writes it, and fails at the closing dollar sign; the scan of
  \<^verbatim>\<open>a$u20$b\<close> likewise; and the operation returns failure for the whole name.
\<close>

theorem rust_scan_replace_escape_fails:
  "rust_scan_replace ''$RF$'' [] = (False, ''&F'') \<and>
   rust_scan_replace ''a$u20$b'' [] = (False, ''a 20'') \<and>
   cxa_demangle linux_platform
     (c_str ''_ZN42_$LT$$RF$T$u20$as$u20$core..fmt..Debug$GT$3fmt17h0123456789abcdefE'') =
     (0, Some ''_$LT$$RF$T$u20$as$u20$core..fmt..Debug$GT$::fmt::h0123456789abcdef'') \<and>
   RustLanguage_DemangleName linux_platform
     ''_ZN42_$LT$$RF$T$u20$as$u20$core..fmt..Debug$GT$3fmt17h0123456789abcdefE'' [] =
     Inr (kDemangleFailure, [])"
  by code_simp

text \<open>
  C2. The scan drops every underscore: \<^verbatim>\<open>drop_in_place\<close> comes out as
  \<^verbatim>\<open>dropinplace\<close>, and the operation returns success with that name.
\<close>

theorem rust_scan_replace_drops_underscore:
  "rust_scan_replace ''drop_in_place'' [] = (True, ''dropinplace'') \<and>
   RustLanguage_DemangleName linux_platform
     ''_ZN4core3ptr13drop_in_place17h0123456789abcdefE'' [] =
     Inr (kDemangleSuccess, ''core::ptr::dropinplace'')"
  by code_simp

text \<open>
  The C++ operation and the Rust fallback leave the output empty whenever they do not
  succeed.
\<close>

lemma CPPLanguage_DemangleName_clears:
  assumes "CPPLanguage_DemangleName P mangled demangled = Inr (r, out)"
    and "r \<noteq> kDemangleSuccess"
  shows "out = []"
  using assms
  by (auto simp: CPPLanguage_DemangleName_def split: if_splits prod.splits option.splits)

lemma RustLanguage_DemangleName_fallback_clears:
  assumes "\<not> HAVE_RUST_DEMANGLE P"
    and "RustLanguage_DemangleName P mangled demangled = Inr (r, out)"
    and "r \<noteq> kDemangleSuccess"
  shows "out = []"
  using assms
  by (auto simp: RustLanguage_DemangleName_def
      split: if_splits prod.splits option.splits bool.splits)

text \<open>
  C3. With the external Rust demangler built in, a null pointer from it makes the
  operation return failure before the output string is touched: what the caller left
  in it is still there.
\<close>

theorem RustLanguage_DemangleName_failure_keeps_output:
  "RustLanguage_DemangleName rustc_platform ''main'' ''stale'' = Inr (kDemangleFailure, ''stale'')"
  by code_simp

end
